theory Spec2Isabelle
  imports Main "HOL-Library.Word" "HOL-Library.Monad_Syntax"
begin

unbundle bit_operations_syntax

section \<open>MiJIT: machine-code synthesis and the executable-memory lifecycle\<close>

text \<open>
  A shallow embedding of \<^verbatim>\<open>src/main.cpp\<close>. The program is compiled for one of four
  platforms, selected by the preprocessor; the embedding makes the selected branch an
  explicit parameter of type \<open>arch\<close>. A \<^verbatim>\<open>std::vector<uint8_t>\<close> is a list of 8-bit
  words, \<^verbatim>\<open>size_t\<close> is a 64-bit word (all four platforms are LP64), a
  \<^verbatim>\<open>std::string\<close> is a \<open>string\<close> (a list of 8-bit characters). The two earlier
  versions of the file that the repository keeps have the same
  \<^verbatim>\<open>estimate_memory_size\<close>, and the same \<^verbatim>\<open>append_message_size\<close> on the profiles they
  support.
\<close>

subsection \<open>Data model\<close>

type_synonym byte = "8 word"
type_synonym size_t = "64 word"

text \<open>The four branches of the \<^verbatim>\<open>#if defined(...)\<close> chains, in source order.\<close>

datatype arch = X86_64_LINUX | X86_64_MACOS | ARM64_LINUX | ARM64_MACOS

text \<open>\<^verbatim>\<open>static_cast<uint8_t>(character)\<close>: the character's value modulo 256.\<close>

definition byte_of_char :: "char \<Rightarrow> byte" where
  "byte_of_char c = word_of_nat (of_char c)"

text \<open>
  \<^verbatim>\<open>machine_code[i] = v\<close>: \<^verbatim>\<open>operator[]\<close> does not check its index; writing at
  or beyond \<^verbatim>\<open>size()\<close> is undefined behaviour, which the model reports as \<open>None\<close>.
\<close>

definition vec_set :: "byte list \<Rightarrow> nat \<Rightarrow> byte \<Rightarrow> byte list option" where
  "vec_set v i x = (if i < length v then Some (v[i := x]) else None)"

subsection \<open>Step 2: the greeting\<close>

text \<open>\<^verbatim>\<open>std::string{"Hello, "} + name + "!\n"\<close>\<close>

definition hello_name :: "string \<Rightarrow> string" where
  "hello_name name = ''Hello, '' @ name @ ''!'' @ [CHR 0x0A]"

subsection \<open>Step 4: the machine-code templates\<close>

definition machine_code_template :: "arch \<Rightarrow> byte list" where
  "machine_code_template a =
     (case a of
        X86_64_LINUX \<Rightarrow>
          [0x48, 0xc7, 0xc0, 0x01, 0x00, 0x00, 0x00,
           0x48, 0xc7, 0xc7, 0x01, 0x00, 0x00, 0x00,
           0x48, 0x8d, 0x35, 0x0a, 0x00, 0x00, 0x00,
           0x48, 0xc7, 0xc2, 0x00, 0x00, 0x00, 0x00,
           0x0f, 0x05,
           0xc3]
      | X86_64_MACOS \<Rightarrow>
          [0x48, 0xc7, 0xc0, 0x04, 0x00, 0x00, 0x02,
           0x48, 0xc7, 0xc7, 0x01, 0x00, 0x00, 0x00,
           0x48, 0x8d, 0x35, 0x0a, 0x00, 0x00, 0x00,
           0x48, 0xc7, 0xc2, 0x00, 0x00, 0x00, 0x00,
           0x0f, 0x05,
           0xc3]
      | ARM64_LINUX \<Rightarrow>
          [0x20, 0x00, 0x80, 0xd2,
           0x41, 0x00, 0x00, 0x10,
           0x42, 0x00, 0x80, 0xd2,
           0x08, 0x08, 0x80, 0xd2,
           0x01, 0x00, 0x00, 0xd4,
           0xc0, 0x03, 0x5f, 0xd6]
      | ARM64_MACOS \<Rightarrow>
          [0x00, 0x00, 0x80, 0xd2,
           0xc0, 0x03, 0x5f, 0xd6])"

subsection \<open>Step 5: patching the message length\<close>

text \<open>
  \<^verbatim>\<open>append_message_size\<close>. \<^verbatim>\<open>hello_name.length()\<close> is a \<^verbatim>\<open>size_t\<close>; each
  stored byte is \<^verbatim>\<open>static_cast<uint8_t>((message_size & mask) >> shift)\<close>. On Apple
  Silicon the body is empty.
\<close>

definition append_message_size :: "arch \<Rightarrow> byte list \<Rightarrow> string \<Rightarrow> byte list option" where
  "append_message_size a machine_code msg =
     (case a of
        ARM64_MACOS \<Rightarrow> Some machine_code
      | X86_64_LINUX \<Rightarrow>
          (let message_size = (word_of_nat (length msg) :: size_t) in
           do {
             m1 \<leftarrow> vec_set machine_code 24 (ucast (drop_bit 0 (message_size AND 0xFF)));
             m2 \<leftarrow> vec_set m1 25 (ucast (drop_bit 8 (message_size AND 0xFF00)));
             m3 \<leftarrow> vec_set m2 26 (ucast (drop_bit 16 (message_size AND 0xFF0000)));
             vec_set m3 27 (ucast (drop_bit 24 (message_size AND 0xFF000000)))
           })
      | X86_64_MACOS \<Rightarrow>
          (let message_size = (word_of_nat (length msg) :: size_t) in
           do {
             m1 \<leftarrow> vec_set machine_code 24 (ucast (drop_bit 0 (message_size AND 0xFF)));
             m2 \<leftarrow> vec_set m1 25 (ucast (drop_bit 8 (message_size AND 0xFF00)));
             m3 \<leftarrow> vec_set m2 26 (ucast (drop_bit 16 (message_size AND 0xFF0000)));
             vec_set m3 27 (ucast (drop_bit 24 (message_size AND 0xFF000000)))
           })
      | ARM64_LINUX \<Rightarrow>
          (let message_size = (word_of_nat (length msg) :: size_t);
               encoded_size = push_bit 5 (message_size AND 0xFFFF) in
           do {
             m1 \<leftarrow> vec_set machine_code 8 (ucast (drop_bit 0 (encoded_size AND 0xFF)));
             vec_set m1 9 (ucast (drop_bit 8 (encoded_size AND 0xFF00)))
           }))"

subsection \<open>Step 6: appending the text\<close>

text \<open>The \<^verbatim>\<open>push_back\<close> loop over the characters of the message.\<close>

fun push_back_all :: "byte list \<Rightarrow> string \<Rightarrow> byte list" where
  "push_back_all machine_code [] = machine_code"
| "push_back_all machine_code (character # rest) =
     push_back_all (machine_code @ [byte_of_char character]) rest"

text \<open>The loop is compiled out on Apple Silicon (\<^verbatim>\<open>#if !defined(__APPLE__) || !defined(__aarch64__)\<close>).\<close>

definition append_payload :: "arch \<Rightarrow> byte list \<Rightarrow> string \<Rightarrow> byte list" where
  "append_payload a machine_code msg =
     (if a \<noteq> ARM64_MACOS then push_back_all machine_code msg else machine_code)"

text \<open>Steps 4 to 6 of \<^verbatim>\<open>main\<close> for a given message: the buffer handed to step 7.\<close>

definition build_machine_code :: "arch \<Rightarrow> string \<Rightarrow> byte list option" where
  "build_machine_code a msg =
     do {
       patched \<leftarrow> append_message_size a (machine_code_template a) msg;
       Some (append_payload a patched msg)
     }"

subsection \<open>Step 8: rounding up to the page size\<close>

text \<open>
  \<^verbatim>\<open>estimate_memory_size\<close>. The page size \<^verbatim>\<open>static_cast<size_t>(sysconf(_SC_PAGE_SIZE))\<close>
  comes from the host and is a parameter here. The \<^verbatim>\<open>while (true)\<close> loop has no bound,
  and \<^verbatim>\<open>factor * page_size_multiple\<close> wraps modulo \<open>2^64\<close>; a run that never returns is
  the value \<open>None\<close>.
\<close>

partial_function (option) estimate_loop :: "size_t \<Rightarrow> size_t \<Rightarrow> size_t \<Rightarrow> size_t option" where
  "estimate_loop page_size_multiple machine_code_size factor =
     (let required_memory_size = factor * page_size_multiple in
      if machine_code_size \<le> required_memory_size then Some required_memory_size
      else estimate_loop page_size_multiple machine_code_size (factor + 1))"

definition estimate_memory_size :: "size_t \<Rightarrow> size_t \<Rightarrow> size_t option" where
  "estimate_memory_size page_size_multiple machine_code_size =
     estimate_loop page_size_multiple machine_code_size 1"

subsection \<open>Steps 8 to 14: the executable-memory lifecycle\<close>

text \<open>
  The \<^verbatim>\<open>try\<close> block of \<^verbatim>\<open>main\<close> talks to the kernel through \<^verbatim>\<open>mmap\<close>,
  \<^verbatim>\<open>mprotect\<close> and \<^verbatim>\<open>munmap\<close>. Whether \<^verbatim>\<open>mmap\<close> returns \<^verbatim>\<open>MAP_FAILED\<close> and
  whether \<^verbatim>\<open>mprotect\<close> returns \<open>-1\<close> is decided by the host, so both answers are
  fields of a \<open>host\<close> record, next to the page size. The process state records the
  protection of the live mapping (\<open>None\<close> when nothing is mapped), every statement
  that uses the pointer \<^verbatim>\<open>memory\<close> in program order, and what was written to
  \<^verbatim>\<open>std::cerr\<close>. \<^verbatim>\<open>std::cout\<close> (prompt, banner, hex dump, the greeting itself) is
  not modelled, and the call of the generated code is taken to return.
\<close>

datatype prot = PROT_READ_WRITE | PROT_READ_EXEC

datatype region_op =
    Mmap size_t prot
  | Copy "byte list"
  | Mprotect size_t prot
  | Invoke
  | Munmap size_t

record host =
  page_size :: size_t
  mmap_ok :: bool
  mprotect_ok :: bool

record process =
  mapping :: "prot option"
  region_ops :: "region_op list"
  cerr :: string

definition sys_mmap :: "host \<Rightarrow> size_t \<Rightarrow> prot \<Rightarrow> process \<Rightarrow> bool \<times> process" where
  "sys_mmap h sz pr s =
     (if mmap_ok h
      then (True, s\<lparr>mapping := Some pr, region_ops := region_ops s @ [Mmap sz pr]\<rparr>)
      else (False, s\<lparr>region_ops := region_ops s @ [Mmap sz pr]\<rparr>))"

definition std_copy :: "byte list \<Rightarrow> process \<Rightarrow> process" where
  "std_copy bytes s = s\<lparr>region_ops := region_ops s @ [Copy bytes]\<rparr>"

definition sys_mprotect :: "host \<Rightarrow> size_t \<Rightarrow> prot \<Rightarrow> process \<Rightarrow> bool \<times> process" where
  "sys_mprotect h sz pr s =
     (if mprotect_ok h
      then (True, s\<lparr>mapping := Some pr, region_ops := region_ops s @ [Mprotect sz pr]\<rparr>)
      else (False, s\<lparr>region_ops := region_ops s @ [Mprotect sz pr]\<rparr>))"

definition call_func :: "process \<Rightarrow> process" where
  "call_func s = s\<lparr>region_ops := region_ops s @ [Invoke]\<rparr>"

definition sys_munmap :: "size_t \<Rightarrow> process \<Rightarrow> process" where
  "sys_munmap sz s = s\<lparr>mapping := None, region_ops := region_ops s @ [Munmap sz]\<rparr>"

text \<open>
  The body of the \<^verbatim>\<open>try\<close> block. A \<^verbatim>\<open>throw std::runtime_error(what)\<close> is the value
  \<open>Inl what\<close>; \<open>None\<close> is a run in which \<^verbatim>\<open>estimate_memory_size\<close> never returns.
\<close>

definition try_block :: "host \<Rightarrow> byte list \<Rightarrow> process \<Rightarrow> ((string + unit) \<times> process) option" where
  "try_block h machine_code s =
     do {
       required_memory_size \<leftarrow>
         estimate_memory_size (page_size h) (word_of_nat (length machine_code));
       Some (
         let (mapped, s1) = sys_mmap h required_memory_size PROT_READ_WRITE s in
         if \<not> mapped then (Inl ''Failed to allocate memory for machine code'', s1)
         else
           let s2 = std_copy machine_code s1;
               (sealed, s3) = sys_mprotect h required_memory_size PROT_READ_EXEC s2 in
           if \<not> sealed
           then
             (let s4 = sys_munmap required_memory_size s3 in
              (Inl ''Failed to make memory executable'', s4))
           else
             (let s4 = call_func s3;
                  s5 = sys_munmap required_memory_size s4 in
              (Inr (), s5)))
     }"

text \<open>The POSIX values of the two exit codes of the C standard library.\<close>

definition EXIT_SUCCESS :: int where
  "EXIT_SUCCESS = 0"

definition EXIT_FAILURE :: int where
  "EXIT_FAILURE = 1"

definition initial_process :: process where
  "initial_process = \<lparr>mapping = None, region_ops = [], cerr = []\<rparr>"

text \<open>
  \<^verbatim>\<open>main\<close> from step 2 on, for the name read in step 1: the exit code and the final
  process state. The \<^verbatim>\<open>catch\<close> handler prints \<^verbatim>\<open>"Error: " << e.what() << '\n'\<close>.
\<close>

definition main :: "host \<Rightarrow> arch \<Rightarrow> string \<Rightarrow> (int \<times> process) option" where
  "main h a name =
     do {
       machine_code \<leftarrow> build_machine_code a (hello_name name);
       (r, s) \<leftarrow> try_block h machine_code initial_process;
       Some (case r of
               Inl what \<Rightarrow>
                 (EXIT_FAILURE, s\<lparr>cerr := cerr s @ ''Error: '' @ what @ [CHR 0x0A]\<rparr>)
             | Inr _ \<Rightarrow> (EXIT_SUCCESS, s))
     }"

subsection \<open>Observations used in the statements\<close>

text \<open>The value of a byte sequence read as a little-endian number.\<close>

fun le_value :: "byte list \<Rightarrow> nat" where
  "le_value [] = 0"
| "le_value (b # bs) = unat b + 256 * le_value bs"

text \<open>A number as a little-endian 4-byte raw value, low byte first.\<close>

definition le32_spec :: "nat \<Rightarrow> byte list" where
  "le32_spec n =
     [word_of_nat (n mod 256), word_of_nat (n div 256 mod 256),
      word_of_nat (n div 65536 mod 256), word_of_nat (n div 16777216 mod 256)]"

text \<open>The placeholder bytes of a buffer: 24 to 27 on x86-64, 8 and 9 on Linux ARM64.\<close>

definition x86_64_length_bytes :: "byte list \<Rightarrow> byte list" where
  "x86_64_length_bytes mc = [mc ! 24, mc ! 25, mc ! 26, mc ! 27]"

definition arm64_length_bytes :: "byte list \<Rightarrow> byte list" where
  "arm64_length_bytes mc = [mc ! 8, mc ! 9]"

definition patch_offsets :: "arch \<Rightarrow> nat set" where
  "patch_offsets a =
     (case a of
        X86_64_LINUX \<Rightarrow> {24, 25, 26, 27}
      | X86_64_MACOS \<Rightarrow> {24, 25, 26, 27}
      | ARM64_LINUX \<Rightarrow> {8, 9}
      | ARM64_MACOS \<Rightarrow> {})"

text \<open>The largest multiple of the page size that a \<^verbatim>\<open>size_t\<close> can hold.\<close>

definition max_multiple :: "size_t \<Rightarrow> nat" where
  "max_multiple p = (2 ^ 64 - 1) div unat p * unat p"

text \<open>The number of pages needed for \<open>N\<close> bytes, at least one.\<close>

definition pages_for :: "nat \<Rightarrow> nat \<Rightarrow> nat" where
  "pages_for P N = Suc ((N - 1) div P)"

text \<open>Calls of \<^verbatim>\<open>munmap\<close> in a log, and what the log holds after the first of them.\<close>

fun is_release :: "region_op \<Rightarrow> bool" where
  "is_release (Munmap _) = True"
| "is_release _ = False"

definition releases :: "region_op list \<Rightarrow> nat" where
  "releases ops = length (filter is_release ops)"

definition ops_after_release :: "region_op list \<Rightarrow> region_op list" where
  "ops_after_release ops = drop 1 (dropWhile (\<lambda>op. \<not> is_release op) ops)"

section \<open>Building the buffer\<close>

subsection \<open>The bytes stored by the patch\<close>

text \<open>
  Each stored byte is a mask, a right shift and a narrowing cast of the 64-bit length; as
  a number it is one base-256 digit of the length.
\<close>

lemma stored_byte_0:
  "(ucast (drop_bit 0 ((word_of_nat n :: size_t) AND 0xFF)) :: byte) = word_of_nat (n mod 256)"
proof -
  have m: "(0xFF :: size_t) = mask 8" by (simp add: mask_eq_exp_minus_1)
  have d: "n mod 256 = take_bit 8 n" by (simp add: take_bit_eq_mod)
  show ?thesis unfolding m d
    by (rule bit_word_eqI) (auto simp add: bit_simps)
qed

lemma stored_byte_1:
  "(ucast (drop_bit 8 ((word_of_nat n :: size_t) AND 0xFF00)) :: byte) =
     word_of_nat (n div 256 mod 256)"
proof -
  have m: "(0xFF00 :: size_t) = push_bit 8 (mask 8)"
    by (simp add: mask_eq_exp_minus_1 push_bit_eq_mult)
  have d: "n div 256 mod 256 = take_bit 8 (drop_bit 8 n)"
    by (simp add: take_bit_eq_mod drop_bit_eq_div)
  show ?thesis unfolding m d
    by (rule bit_word_eqI) (auto simp add: bit_simps)
qed

lemma stored_byte_2:
  "(ucast (drop_bit 16 ((word_of_nat n :: size_t) AND 0xFF0000)) :: byte) =
     word_of_nat (n div 65536 mod 256)"
proof -
  have m: "(0xFF0000 :: size_t) = push_bit 16 (mask 8)"
    by (simp add: mask_eq_exp_minus_1 push_bit_eq_mult)
  have d: "n div 65536 mod 256 = take_bit 8 (drop_bit 16 n)"
    by (simp add: take_bit_eq_mod drop_bit_eq_div)
  show ?thesis unfolding m d
    by (rule bit_word_eqI) (auto simp add: bit_simps)
qed

lemma stored_byte_3:
  "(ucast (drop_bit 24 ((word_of_nat n :: size_t) AND 0xFF000000)) :: byte) =
     word_of_nat (n div 16777216 mod 256)"
proof -
  have m: "(0xFF000000 :: size_t) = push_bit 24 (mask 8)"
    by (simp add: mask_eq_exp_minus_1 push_bit_eq_mult)
  have d: "n div 16777216 mod 256 = take_bit 8 (drop_bit 24 n)"
    by (simp add: take_bit_eq_mod drop_bit_eq_div)
  show ?thesis unfolding m d
    by (rule bit_word_eqI) (auto simp add: bit_simps)
qed

lemma encoded_size_of_nat:
  "push_bit 5 ((word_of_nat n :: size_t) AND 0xFFFF) = word_of_nat (push_bit 5 (n AND 0xFFFF))"
proof -
  have m: "(0xFFFF :: size_t) = mask 16" by (simp add: mask_eq_exp_minus_1)
  have m': "(0xFFFF :: nat) = mask 16" by (simp add: mask_eq_exp_minus_1)
  show ?thesis unfolding m m'
    by (rule bit_word_eqI) (auto simp add: bit_simps)
qed

lemma two_digits: "(n::nat) mod 256 + 256 * (n div 256 mod 256) = n mod 65536"
  using mod_mult2_eq[of n 256 256] by simp

lemma four_digits:
  "(n::nat) mod 256 + 256 * (n div 256 mod 256) + 65536 * (n div 65536 mod 256) +
     16777216 * (n div 16777216 mod 256) = n mod 4294967296"
proof -
  have lo: "n mod 65536 = n mod 256 + 256 * (n div 256 mod 256)"
    using mod_mult2_eq[of n 256 256] by simp
  have hi: "n div 65536 mod 65536 =
      n div 65536 mod 256 + 256 * (n div 65536 div 256 mod 256)"
    using mod_mult2_eq[of "n div 65536" 256 256] by simp
  have top: "n div 65536 div 256 = n div 16777216"
    by (simp add: div_mult2_eq[symmetric])
  have "n mod 4294967296 = n mod 65536 + 65536 * (n div 65536 mod 65536)"
    using mod_mult2_eq[of n 65536 65536] by simp
  then show ?thesis using lo hi top by simp
qed

subsection \<open>The patch as list updates\<close>

lemma x86_64_patch_updates:
  assumes "a = X86_64_LINUX \<or> a = X86_64_MACOS" and "28 \<le> length buf"
  shows "append_message_size a buf msg =
     Some (buf[24 := word_of_nat (length msg mod 256),
               25 := word_of_nat (length msg div 256 mod 256),
               26 := word_of_nat (length msg div 65536 mod 256),
               27 := word_of_nat (length msg div 16777216 mod 256)])"
  using assms
  apply (elim disjE)
   apply (simp_all only: append_message_size_def arch.case Let_def
      stored_byte_0 stored_byte_1 stored_byte_2 stored_byte_3)
   apply (simp_all add: vec_set_def)
  done

lemma x86_64_patch_short_buffer:
  assumes "a = X86_64_LINUX \<or> a = X86_64_MACOS" and "length buf < 28"
  shows "append_message_size a buf msg = None"
  using assms by (auto simp add: append_message_size_def vec_set_def Let_def)

lemma arm64_patch_updates:
  assumes "10 \<le> length buf"
  shows "append_message_size ARM64_LINUX buf msg =
     Some (buf[8 := word_of_nat (push_bit 5 (length msg AND 0xFFFF) mod 256),
               9 := word_of_nat (push_bit 5 (length msg AND 0xFFFF) div 256 mod 256)])"
  using assms
  apply (simp only: append_message_size_def arch.case Let_def encoded_size_of_nat
      stored_byte_0 stored_byte_1)
  apply (simp add: vec_set_def)
  done

lemma patch_changes_placeholder_only:
  assumes "append_message_size a buf msg = Some mc"
  shows "length mc = length buf \<and> (\<forall>i. i \<notin> patch_offsets a \<longrightarrow> mc ! i = buf ! i)"
proof (cases a)
  case X86_64_LINUX
  then show ?thesis
    using assms x86_64_patch_updates[of a buf msg] x86_64_patch_short_buffer[of a buf msg]
    by (cases "28 \<le> length buf") (auto simp add: patch_offsets_def)
next
  case X86_64_MACOS
  then show ?thesis
    using assms x86_64_patch_updates[of a buf msg] x86_64_patch_short_buffer[of a buf msg]
    by (cases "28 \<le> length buf") (auto simp add: patch_offsets_def)
next
  case ARM64_LINUX
  then show ?thesis using assms
    by (auto simp add: append_message_size_def vec_set_def Let_def patch_offsets_def
        split: if_splits bind_splits)
next
  case ARM64_MACOS
  then show ?thesis using assms by (simp add: append_message_size_def)
qed

subsection \<open>The whole buffer\<close>

lemmas build_defs = build_machine_code_def hello_name_def append_message_size_def
  machine_code_template_def vec_set_def append_payload_def byte_of_char_def

lemma push_back_all_eq: "push_back_all mc msg = mc @ map byte_of_char msg"
  by (induction msg arbitrary: mc) simp_all

lemma template_length:
  "length (machine_code_template a) =
     (case a of X86_64_LINUX \<Rightarrow> 31 | X86_64_MACOS \<Rightarrow> 31 | ARM64_LINUX \<Rightarrow> 24 | ARM64_MACOS \<Rightarrow> 8)"
  by (cases a) (simp_all add: machine_code_template_def)

lemma patch_template_defined:
  "\<exists>mc. append_message_size a (machine_code_template a) msg = Some mc \<and>
        length mc = length (machine_code_template a)"
proof (cases a)
  case X86_64_LINUX
  then show ?thesis
    using x86_64_patch_updates[of a "machine_code_template a" msg] by (simp add: template_length)
next
  case X86_64_MACOS
  then show ?thesis
    using x86_64_patch_updates[of a "machine_code_template a" msg] by (simp add: template_length)
next
  case ARM64_LINUX
  then show ?thesis
    using arm64_patch_updates[of "machine_code_template a" msg] by (simp add: template_length)
next
  case ARM64_MACOS
  then show ?thesis by (simp add: append_message_size_def)
qed

lemma build_defined:
  "\<exists>mc. build_machine_code a msg = Some mc \<and>
        length mc \<le> length (machine_code_template a) + length msg"
proof -
  obtain p where "append_message_size a (machine_code_template a) msg = Some p"
    and "length p = length (machine_code_template a)"
    using patch_template_defined by blast
  then show ?thesis
    by (simp add: build_machine_code_def append_payload_def push_back_all_eq)
qed

subsection \<open>The golden sequence on Linux x86-64\<close>

text \<open>
  Claim C1, as the code has it. For the message \<open>Hello, World!\<close> followed by a newline
  (14 characters), the Linux x86-64 buffer is the 31 instruction bytes of the template
  (indices 0 to 30), with the bytes 24 to 27 set to \<open>0E 00 00 00\<close>, followed by the 14
  ASCII bytes of the message: 45 bytes in all. The instruction prefix has 31 bytes, not
  30: the load of the string address at bytes 14 to 20 adds 10 to the address 21 of the
  next instruction, which is index 31.
\<close>

theorem golden_sequence_linux_x86_64:
  "hello_name ''World'' = ''Hello, World!\<newline>'' \<and>
   length ''Hello, World!\<newline>'' = 14 \<and>
   build_machine_code X86_64_LINUX ''Hello, World!\<newline>'' = Some
     ([0x48, 0xc7, 0xc0, 0x01, 0x00, 0x00, 0x00,
       0x48, 0xc7, 0xc7, 0x01, 0x00, 0x00, 0x00,
       0x48, 0x8d, 0x35, 0x0a, 0x00, 0x00, 0x00,
       0x48, 0xc7, 0xc2, 0x0e, 0x00, 0x00, 0x00,
       0x0f, 0x05,
       0xc3] @ map byte_of_char ''Hello, World!\<newline>'') \<and>
   map_option length (build_machine_code X86_64_LINUX ''Hello, World!\<newline>'') =
     Some (31 + 14) \<and>
   map_option (take 31) (build_machine_code X86_64_LINUX ''Hello, World!\<newline>'') =
     Some ((machine_code_template X86_64_LINUX)[24 := 0x0E]) \<and>
   map_option x86_64_length_bytes (build_machine_code X86_64_LINUX ''Hello, World!\<newline>'') =
     Some [0x0E, 0x00, 0x00, 0x00] \<and>
   map_option (drop 31) (build_machine_code X86_64_LINUX ''Hello, World!\<newline>'') =
     Some [0x48, 0x65, 0x6c, 0x6c, 0x6f, 0x2c, 0x20, 0x57, 0x6f, 0x72, 0x6c, 0x64, 0x21, 0x0a]"
  by (simp add: build_defs x86_64_length_bytes_def)

text \<open>
  With a prefix of 30 bytes the statement fails: the template is not 30 bytes long, the
  buffer is not 44 bytes long, and what follows the first 30 bytes is not the message
  (it starts with the \<open>ret\<close> instruction \<open>C3\<close>).
\<close>

theorem instruction_prefix_is_not_30_bytes:
  "length (machine_code_template X86_64_LINUX) \<noteq> 30 \<and>
   map_option length (build_machine_code X86_64_LINUX ''Hello, World!\<newline>'') \<noteq>
     Some (30 + 14) \<and>
   map_option (drop 30) (build_machine_code X86_64_LINUX ''Hello, World!\<newline>'') \<noteq>
     Some (map byte_of_char ''Hello, World!\<newline>'')"
  by (simp add: build_defs)

subsection \<open>The length field on x86-64\<close>

text \<open>
  Claim C3. On both x86-64 profiles, for every message and every buffer that has the
  bytes 24 to 27 (the template does), the patch is defined and leaves in the bytes 24 to
  27 the message length as a little-endian 4-byte raw value: byte \<open>24 + i\<close> is the
  \<open>i\<close>-th base-256 digit of the length, and the four bytes read as a little-endian
  number give the length modulo \<open>2^32\<close>. For the name \<open>Ada\<close> the message is
  \<open>Hello, Ada!\<close> followed by a newline, of length 12, and the four bytes of the
  finished buffer are \<open>0C 00 00 00\<close>.
\<close>

theorem x86_64_length_patch:
  assumes "a = X86_64_LINUX \<or> a = X86_64_MACOS" and "28 \<le> length buf"
  shows "(\<exists>mc. append_message_size a buf msg = Some mc \<and>
            x86_64_length_bytes mc = le32_spec (length msg) \<and>
            le_value (x86_64_length_bytes mc) = length msg mod 2 ^ 32) \<and>
         hello_name ''Ada'' = ''Hello, Ada!\<newline>'' \<and>
         length (hello_name ''Ada'') = 12 \<and>
         map_option x86_64_length_bytes (build_machine_code a (hello_name ''Ada'')) =
           Some [0x0C, 0x00, 0x00, 0x00]"
proof -
  have "\<exists>mc. append_message_size a buf msg = Some mc \<and>
            x86_64_length_bytes mc = le32_spec (length msg) \<and>
            le_value (x86_64_length_bytes mc) = length msg mod 2 ^ 32"
    using assms(2) four_digits[of "length msg"] unfolding x86_64_patch_updates[OF assms]
    by (simp add: unat_of_nat x86_64_length_bytes_def le32_spec_def)
  moreover have "map_option x86_64_length_bytes (build_machine_code a (hello_name ''Ada'')) =
           Some [0x0C, 0x00, 0x00, 0x00]"
    using assms(1) by (auto simp add: build_defs x86_64_length_bytes_def)
  ultimately show ?thesis by (simp add: hello_name_def)
qed

theorem x86_64_length_patch_witness:
  "(\<exists>mc. append_message_size X86_64_MACOS (machine_code_template X86_64_MACOS)
            ''Hello, Ada!\<newline>'' = Some mc \<and>
          x86_64_length_bytes mc = le32_spec 12 \<and>
          le_value (x86_64_length_bytes mc) = 12) \<and>
   map_option x86_64_length_bytes (build_machine_code X86_64_MACOS (hello_name ''Ada'')) =
     Some [0x0C, 0x00, 0x00, 0x00]"
proof -
  have h1: "X86_64_MACOS = X86_64_LINUX \<or> X86_64_MACOS = X86_64_MACOS" by simp
  have h2: "28 \<le> length (machine_code_template X86_64_MACOS)"
    by (simp add: machine_code_template_def)
  have l: "length ''Hello, Ada!\<newline>'' = 12" by simp
  show ?thesis
    using x86_64_length_patch[OF h1 h2, of "''Hello, Ada!\<newline>''"] unfolding l by auto
qed

subsection \<open>The length field on Linux ARM64\<close>

text \<open>
  Claim C4, as the code has it. On Linux ARM64, for every message whose length has low
  16 bits of at most \<open>0x7FF\<close> (in particular every message of at most \<open>0x7FF\<close>
  characters) and every buffer that has the bytes 8 and 9 (the template does), the patch
  is defined and the two bytes 8 and 9, read as a little-endian number, hold
  \<open>(length & 0xFFFF) << 5\<close>.
\<close>

theorem arm64_length_patch:
  assumes "length msg AND 0xFFFF \<le> 0x7FF" and "10 \<le> length buf"
  shows "\<exists>mc. append_message_size ARM64_LINUX buf msg = Some mc \<and>
     le_value (arm64_length_bytes mc) = push_bit 5 (length msg AND 0xFFFF)"
proof -
  have "push_bit 5 (length msg AND 0xFFFF) < 65536"
    using assms(1) by (simp add: push_bit_eq_mult)
  then show ?thesis
    using assms(2) two_digits[of "push_bit 5 (length msg AND 0xFFFF)"]
    unfolding arm64_patch_updates[OF assms(2)]
    by (simp add: unat_of_nat arm64_length_bytes_def)
qed

theorem arm64_length_patch_witness:
  "\<exists>mc. append_message_size ARM64_LINUX (machine_code_template ARM64_LINUX)
          ''Hello, World!\<newline>'' = Some mc \<and>
        le_value (arm64_length_bytes mc) = 448"
proof -
  have l: "length ''Hello, World!\<newline>'' = 14" by simp
  have h1: "length ''Hello, World!\<newline>'' AND 0xFFFF \<le> 0x7FF" unfolding l by simp
  have h2: "10 \<le> length (machine_code_template ARM64_LINUX)"
    by (simp add: machine_code_template_def)
  show ?thesis using arm64_length_patch[OF h1 h2] unfolding l by simp
qed

text \<open>
  For a name of 2039 characters the message has 2048 characters; \<open>(2048 & 0xFFFF) << 5\<close>
  is 65536, which two bytes cannot hold, and the bytes 8 and 9 hold 0.
\<close>

theorem arm64_length_field_overflows:
  "length (hello_name (replicate 2039 (CHR ''a''))) = 2048 \<and>
   map_option (le_value \<circ> arm64_length_bytes)
     (append_message_size ARM64_LINUX (machine_code_template ARM64_LINUX)
        (hello_name (replicate 2039 (CHR ''a'')))) = Some 0 \<and>
   push_bit 5 (length (hello_name (replicate 2039 (CHR ''a''))) AND 0xFFFF) = (65536 :: nat)"
proof -
  have len: "length (hello_name (replicate 2039 (CHR ''a''))) = 2048"
    by (simp add: hello_name_def)
  have tl: "10 \<le> length (machine_code_template ARM64_LINUX)"
    by (simp add: machine_code_template_def)
  show ?thesis
    unfolding arm64_patch_updates[OF tl] len
    by (simp add: arm64_length_bytes_def machine_code_template_def)
qed

subsection \<open>The restricted profile\<close>

text \<open>
  Claim C5. On Apple Silicon the template is the 8 bytes of \<open>mov x0, #0; ret\<close>, the
  length patch returns every buffer unchanged, nothing is appended, and so the finished
  buffer is that template for every message.
\<close>

theorem apple_silicon_buffer_is_template:
  "machine_code_template ARM64_MACOS = [0x00, 0x00, 0x80, 0xd2, 0xc0, 0x03, 0x5f, 0xd6] \<and>
   append_message_size ARM64_MACOS buf msg = Some buf \<and>
   append_payload ARM64_MACOS buf msg = buf \<and>
   build_machine_code ARM64_MACOS msg = Some [0x00, 0x00, 0x80, 0xd2, 0xc0, 0x03, 0x5f, 0xd6]"
  by (simp add: build_machine_code_def append_message_size_def append_payload_def
      machine_code_template_def)

subsection \<open>What the patch leaves alone\<close>

text \<open>
  Claim C9. On every profile and for every message, whenever the patch is defined on a
  buffer it keeps the buffer's length and every byte outside the placeholder (indices 24
  to 27 on the x86-64 profiles, 8 and 9 on Linux ARM64, none on Apple Silicon); and it is
  defined on the profile's template.
\<close>

theorem patch_frame:
  assumes "append_message_size a buf msg = Some mc"
  shows "length mc = length buf \<and> (\<forall>i. i \<notin> patch_offsets a \<longrightarrow> mc ! i = buf ! i) \<and>
         (\<exists>mc'. append_message_size a (machine_code_template a) msg = Some mc')"
  using patch_changes_placeholder_only[OF assms] patch_template_defined[of a msg] by blast

theorem patch_frame_witness:
  "length [0x20, 0x00, 0x80, 0xd2, 0x41, 0x00, 0x00, 0x10, 0xc0, 0x01, 0x80, 0xd2,
           0x08, 0x08, 0x80, 0xd2, 0x01, 0x00, 0x00, 0xd4, 0xc0, 0x03, 0x5f, 0xd6 :: byte] =
     length (machine_code_template ARM64_LINUX) \<and>
   (10 :: nat) \<notin> patch_offsets ARM64_LINUX \<and>
   [0x20, 0x00, 0x80, 0xd2, 0x41, 0x00, 0x00, 0x10, 0xc0, 0x01, 0x80, 0xd2,
    0x08, 0x08, 0x80, 0xd2, 0x01, 0x00, 0x00, 0xd4, 0xc0, 0x03, 0x5f, 0xd6 :: byte] ! 10 =
     machine_code_template ARM64_LINUX ! 10"
proof -
  have run: "append_message_size ARM64_LINUX (machine_code_template ARM64_LINUX)
      ''Hello, World!\<newline>'' =
    Some [0x20, 0x00, 0x80, 0xd2, 0x41, 0x00, 0x00, 0x10, 0xc0, 0x01, 0x80, 0xd2,
          0x08, 0x08, 0x80, 0xd2, 0x01, 0x00, 0x00, 0xd4, 0xc0, 0x03, 0x5f, 0xd6]"
    by (simp add: build_defs)
  have "(10 :: nat) \<notin> patch_offsets ARM64_LINUX" by (simp add: patch_offsets_def)
  then show ?thesis using patch_frame[OF run] by blast
qed

section \<open>Rounding up to the page size\<close>

subsection \<open>Unrolling the loop\<close>

text \<open>
  If the test fails for every factor from the current one up to \<open>k\<close> and succeeds at
  \<open>k\<close>, the loop returns the product at \<open>k\<close>.
\<close>

lemma estimate_loop_unroll:
  assumes "\<forall>j. unat factor \<le> j \<and> j < k \<longrightarrow> \<not> n \<le> word_of_nat j * p"
    and "n \<le> word_of_nat k * p" and "unat factor \<le> k" and "k < 2 ^ 64"
  shows "estimate_loop p n factor = Some (word_of_nat k * p)"
  using assms
proof (induction "k - unat factor" arbitrary: factor)
  case 0
  then have "word_of_nat k = factor" by simp
  with 0 show ?case by (subst estimate_loop.simps) simp
next
  case (Suc d)
  then have lt: "unat factor < k" by simp
  then have nf: "\<not> n \<le> factor * p"
    using Suc.prems(1)[rule_format, of "unat factor"] by simp
  have u: "unat (factor + 1) = unat factor + 1"
    using lt Suc.prems(4) by (simp add: unat_word_ariths)
  have "estimate_loop p n (factor + 1) = Some (word_of_nat k * p)"
  proof (rule Suc.hyps(1))
    show "d = k - unat (factor + 1)" using Suc.hyps(2) u by simp
    show "\<forall>j. unat (factor + 1) \<le> j \<and> j < k \<longrightarrow> \<not> n \<le> word_of_nat j * p"
      using Suc.prems(1) u by simp
    show "n \<le> word_of_nat k * p" by fact
    show "unat (factor + 1) \<le> k" using lt u by simp
    show "k < 2 ^ 64" by fact
  qed
  then show ?case using nf by (subst estimate_loop.simps) simp
qed

text \<open>Whatever the loop returns passed its test and is a product with the page size.\<close>

lemma estimate_loop_result:
  assumes "estimate_loop p n factor = Some r"
  shows "n \<le> r \<and> (\<exists>k. r = k * p)"
  using assms
proof (induction rule: estimate_loop.raw_induct[rotated 1, consumes 1])
  case (1 loop p n factor r)
  then show ?case by (auto simp add: Let_def split: if_splits)
qed

subsection \<open>Arithmetic of pages\<close>

lemma unat_pow2:
  assumes "e < 64"
  shows "unat (2 ^ e :: size_t) = 2 ^ e"
proof -
  have "(2::nat) ^ e < 2 ^ 64" using assms by (intro power_strict_increasing) simp_all
  moreover have "(2 ^ e :: size_t) = word_of_nat (2 ^ e)" by simp
  ultimately show ?thesis by (simp only: unat_of_nat) simp
qed

lemma unat_size_t_less: "unat (w :: size_t) < 2 ^ 64"
  using unsigned_less[of w, where 'a = nat] by simp

lemma max_multiple_bounds:
  assumes "p \<noteq> 0"
  shows "unat p \<le> max_multiple p" and "max_multiple p < 2 ^ 64"
    and "unat p dvd max_multiple p"
proof -
  have P: "0 < unat p" using assms by (simp add: unat_gt_0)
  have lt: "unat p < 2 ^ 64" by (rule unat_size_t_less)
  then have "1 \<le> (2 ^ 64 - 1) div unat p" using P
    by (simp add: Suc_le_eq div_greater_zero_iff)
  then have "unat p * 1 \<le> unat p * ((2 ^ 64 - 1) div unat p)" by (rule mult_le_mono2)
  then show "unat p \<le> max_multiple p" by (simp add: max_multiple_def mult.commute)
  have "(2 ^ 64 - 1) div unat p * unat p \<le> (2 ^ 64 - 1 :: nat)"
    by (rule div_times_less_eq_dividend)
  moreover have "(2 ^ 64 - 1 :: nat) < 2 ^ 64" by simp
  ultimately show "max_multiple p < 2 ^ 64" unfolding max_multiple_def by (rule le_less_trans)
  show "unat p dvd max_multiple p" by (simp add: max_multiple_def)
qed

lemma pages_for_covers: "0 < P \<Longrightarrow> N \<le> pages_for P N * P"
proof -
  assume P: "0 < P"
  have "N - 1 < Suc ((N - 1) div P) * P" using P
    using dividend_less_div_times[of P "N - 1"] by (simp add: add.commute)
  then show ?thesis by (simp add: pages_for_def)
qed

lemma pages_for_least:
  assumes "0 < P" "0 < q" "N \<le> q * P"
  shows "pages_for P N \<le> q"
proof (rule ccontr)
  assume "\<not> pages_for P N \<le> q"
  then have q: "q \<le> (N - 1) div P" by (simp add: pages_for_def)
  then have "q * P \<le> (N - 1) div P * P" by (rule mult_le_mono1)
  also have "\<dots> \<le> N - 1" by (rule div_times_less_eq_dividend)
  finally have le: "q * P \<le> N - 1" .
  show False
  proof (cases "N = 0")
    case True
    then show ?thesis using q assms(2) by simp
  next
    case False
    then show ?thesis using le assms(3) by simp
  qed
qed

lemma pages_for_below:
  assumes "0 < P" "0 < j" "j < pages_for P N"
  shows "j * P < N"
proof (rule ccontr)
  assume "\<not> j * P < N"
  then have "N \<le> j * P" by simp
  then have "pages_for P N \<le> j" using assms(1,2) by (intro pages_for_least)
  then show False using assms(3) by simp
qed

lemma pred_div:
  assumes "0 < b" and "0 < a"
  shows "(a * b - 1) div b = a - (1::nat)"
proof -
  obtain a' where a: "a = Suc a'" using assms(2) by (cases a) simp_all
  define c where "c = b - 1"
  have c: "c < b" and nz: "b \<noteq> 0" using assms(1) by (simp_all add: c_def)
  have "a * b - 1 = c + a' * b" using assms(1) a by (simp add: c_def)
  moreover have "(c + a' * b) div b = a' + c div b" using nz by (rule div_mult_self1)
  moreover have "c div b = 0" using c by simp
  ultimately show ?thesis using a by simp
qed

lemma pow2_max_multiple:
  assumes "e < 64"
  shows "max_multiple (2 ^ e) = 2 ^ 64 - 2 ^ e"
proof -
  have s: "(2::nat) ^ 64 = 2 ^ (64 - e) * 2 ^ e"
    using assms by (simp only: power_add[symmetric]) simp
  have "max_multiple (2 ^ e) = (2 ^ (64 - e) * 2 ^ e - 1) div 2 ^ e * 2 ^ e"
    unfolding max_multiple_def unat_pow2[OF assms] s ..
  also have "\<dots> = (2 ^ (64 - e) - 1) * 2 ^ e"
    by (subst pred_div) simp_all
  also have "\<dots> = 2 ^ (64 - e) * 2 ^ e - 2 ^ e"
    by (simp only: diff_mult_distrib mult_1)
  finally show ?thesis unfolding s .
qed

lemma pow2_multiple_bound:
  assumes "e < 64"
  shows "unat (k * 2 ^ e :: size_t) \<le> 2 ^ 64 - 2 ^ e"
proof -
  have s: "(2::nat) ^ 64 = 2 ^ (64 - e) * 2 ^ e"
    using assms by (simp only: power_add[symmetric]) simp
  have "unat (k * 2 ^ e :: size_t) = (unat k * 2 ^ e) mod 2 ^ 64"
    using unat_pow2[OF assms] by (simp add: unat_word_ariths)
  moreover have "(2::nat) ^ e dvd (unat k * 2 ^ e) mod 2 ^ 64"
  proof (rule dvd_mod)
    show "(2::nat) ^ e dvd unat k * 2 ^ e" by simp
    show "(2::nat) ^ e dvd 2 ^ 64" using assms by (intro le_imp_power_dvd) simp
  qed
  ultimately obtain q where q: "unat (k * 2 ^ e :: size_t) = q * 2 ^ e"
    by (auto simp add: dvd_def mult.commute)
  have "q * 2 ^ e < 2 ^ (64 - e) * 2 ^ e"
    using unat_size_t_less[of "k * 2 ^ e"] q s by simp
  then have "q < 2 ^ (64 - e)" by simp
  then have "Suc q * 2 ^ e \<le> 2 ^ (64 - e) * 2 ^ e" by (intro mult_le_mono1) simp
  then show ?thesis using q s by simp
qed

subsection \<open>What the function returns, and when it does not return\<close>

lemma estimate_exact:
  assumes "p \<noteq> 0" and "unat n \<le> max_multiple p"
  shows "estimate_memory_size p n =
      Some (word_of_nat (pages_for (unat p) (unat n) * unat p))"
    and "pages_for (unat p) (unat n) * unat p < 2 ^ 64"
proof -
  let ?P = "unat p" and ?N = "unat n"
  let ?k = "pages_for ?P ?N"
  have P: "0 < ?P" using assms(1) by (simp add: unat_gt_0)
  obtain q where q: "max_multiple p = q * ?P" by (auto simp add: max_multiple_def)
  have "0 < q" using max_multiple_bounds(1)[OF assms(1)] P q by (cases q) simp_all
  then have "?k \<le> q" using assms(2) q P by (intro pages_for_least) simp_all
  then have "?k * ?P \<le> q * ?P" by (rule mult_le_mono1)
  then show kP: "?k * ?P < 2 ^ 64"
    using max_multiple_bounds(2)[OF assms(1)] q by linarith
  have k_lt: "?k < 2 ^ 64"
  proof -
    have "?k \<le> ?k * ?P" using P by simp
    then show ?thesis using kP by (rule le_less_trans)
  qed
  have prod: "unat (word_of_nat j * p) = j * ?P" if "j \<le> ?k" for j
  proof -
    have "j * ?P \<le> ?k * ?P" using that by (rule mult_le_mono1)
    then have "j * ?P < 2 ^ 64" using kP by (rule le_less_trans)
    moreover have "j < 2 ^ 64" using that k_lt by (rule le_less_trans)
    ultimately show ?thesis by (simp add: unat_word_ariths unat_of_nat)
  qed
  have eq: "word_of_nat (?k * ?P) = word_of_nat ?k * p" by simp
  show "estimate_memory_size p n = Some (word_of_nat (?k * ?P))"
    unfolding estimate_memory_size_def eq
  proof (rule estimate_loop_unroll)
    show "\<forall>j. unat (1 :: size_t) \<le> j \<and> j < ?k \<longrightarrow> \<not> n \<le> word_of_nat j * p"
    proof (intro allI impI)
      fix j assume j: "unat (1 :: size_t) \<le> j \<and> j < ?k"
      then have "j * ?P < ?N" using P by (intro pages_for_below) simp_all
      then show "\<not> n \<le> word_of_nat j * p"
        using prod[of j] j by (simp add: word_le_nat_alt)
    qed
    show "n \<le> word_of_nat ?k * p"
      using pages_for_covers[OF P, of ?N] prod[of ?k] by (simp add: word_le_nat_alt)
    show "unat (1 :: size_t) \<le> ?k" by (simp add: pages_for_def)
    show "?k < 2 ^ 64" by (rule k_lt)
  qed
qed

lemma estimate_smallest_multiple:
  assumes "p \<noteq> 0" and "unat n \<le> max_multiple p"
  shows "\<exists>r. estimate_memory_size p n = Some r \<and> 0 < unat r \<and> unat p dvd unat r \<and>
           unat n \<le> unat r \<and>
           (\<forall>m. 0 < m \<and> unat p dvd m \<and> unat n \<le> m \<longrightarrow> unat r \<le> m)"
proof -
  let ?P = "unat p" and ?N = "unat n"
  let ?k = "pages_for ?P ?N"
  let ?r = "word_of_nat (?k * ?P) :: size_t"
  have P: "0 < ?P" using assms(1) by (simp add: unat_gt_0)
  have r: "unat ?r = ?k * ?P"
    using estimate_exact(2)[OF assms] by (simp only: unat_of_nat) simp
  have least: "?k * ?P \<le> m" if m: "0 < m \<and> ?P dvd m \<and> ?N \<le> m" for m
  proof -
    obtain q where q: "m = q * ?P" using m by (auto simp add: dvd_def mult.commute)
    then have "0 < q" using m by (cases q) simp_all
    then have "?k \<le> q" using P m q by (intro pages_for_least) simp_all
    then show ?thesis unfolding q by (rule mult_le_mono1)
  qed
  have "0 < ?k * ?P" using P by (simp add: pages_for_def)
  then have pos: "0 < unat ?r" by (simp only: r)
  have dvd: "?P dvd unat ?r" by (simp only: r) simp
  have "?N \<le> ?k * ?P" using P by (rule pages_for_covers)
  then have ge: "?N \<le> unat ?r" by (simp only: r)
  have min: "\<forall>m. 0 < m \<and> ?P dvd m \<and> ?N \<le> m \<longrightarrow> unat ?r \<le> m"
    using least by (simp only: r) blast
  show ?thesis using estimate_exact(1)[OF assms] pos dvd ge min by blast
qed

lemma estimate_zero: "estimate_memory_size p 0 = Some p"
  unfolding estimate_memory_size_def by (subst estimate_loop.simps) simp

lemma estimate_same: "estimate_memory_size p p = Some p"
  unfolding estimate_memory_size_def by (subst estimate_loop.simps) simp

lemma estimate_succ:
  assumes "e < 63"
  shows "estimate_memory_size (2 ^ e) (2 ^ e + 1) = Some (2 * 2 ^ e)"
proof -
  let ?p = "2 ^ e :: size_t"
  have e64: "e < 64" using assms by simp
  have "(2::nat) ^ e \<le> 2 ^ 62" using assms by (intro power_increasing) simp_all
  then have small: "(2::nat) ^ e \<le> 4611686018427387904" by simp
  have P: "unat ?p = 2 ^ e" using e64 by (rule unat_pow2)
  have u1: "unat (?p + 1) = 2 ^ e + 1" using small by (simp add: unat_word_ariths P)
  have u2: "unat (2 * ?p) = 2 * 2 ^ e" using small by (simp add: unat_word_ariths P)
  have a: "\<not> ?p + 1 \<le> 1 * ?p" by (simp add: word_le_nat_alt u1 P)
  have b: "?p + 1 \<le> (1 + 1) * ?p" using u2 by (simp add: word_le_nat_alt u1)
  have "estimate_loop ?p (?p + 1) (1 + 1) = Some ((1 + 1) * ?p)"
    using b by (subst estimate_loop.simps) simp
  then have "estimate_loop ?p (?p + 1) 1 = Some ((1 + 1) * ?p)"
    using a by (subst estimate_loop.simps) (simp add: Let_def)
  then show ?thesis by (simp add: estimate_memory_size_def)
qed

lemma pow2_diverges:
  assumes "e < 64" and "2 ^ 64 - 2 ^ e < unat n"
  shows "estimate_memory_size (2 ^ e) n = None"
proof (cases "estimate_memory_size (2 ^ e) n")
  case None
  then show ?thesis .
next
  case (Some r)
  then obtain k where "n \<le> r" and "r = k * 2 ^ e"
    using estimate_loop_result[of "2 ^ e" n 1 r] by (auto simp add: estimate_memory_size_def)
  then have "unat n \<le> 2 ^ 64 - 2 ^ e"
    using pow2_multiple_bound[OF assms(1), of k] by (simp add: word_le_nat_alt)
  then show ?thesis using assms(2) by simp
qed

lemma estimate_defined:
  assumes "p \<noteq> 0" and "k \<le> max_multiple p"
  shows "\<exists>sz. estimate_memory_size p (word_of_nat k) = Some sz"
proof -
  have "k < 2 ^ 64" using assms(2) max_multiple_bounds(2)[OF assms(1)] by (rule le_less_trans)
  then have "unat (word_of_nat k :: size_t) = k" by (simp add: unat_of_nat)
  then show ?thesis using estimate_exact(1)[OF assms(1), of "word_of_nat k"] assms(2) by simp
qed

text \<open>
  Claim C2, as the code has it. For a page size \<open>p\<close> that is a positive power of two
  and a byte count \<open>n\<close> with \<open>n + p \<le> 2^64\<close> (that is, \<open>n\<close> at most \<open>2^64 - p\<close>, the
  largest multiple of \<open>p\<close> that a \<^verbatim>\<open>size_t\<close> holds), \<^verbatim>\<open>estimate_memory_size\<close> returns
  the smallest positive multiple of \<open>p\<close> that is at least \<open>n\<close>. In particular it returns
  \<open>p\<close> for 0 and for \<open>p\<close>, and \<open>2p\<close> for \<open>p + 1\<close> when \<open>p\<close> is below \<open>2^63\<close>.
\<close>

theorem estimate_memory_size_rounds_up:
  assumes "p = 2 ^ e" and "e < 64" and "unat n + unat p \<le> 2 ^ 64"
  shows "(\<exists>r. estimate_memory_size p n = Some r \<and> 0 < unat r \<and> unat p dvd unat r \<and>
            unat n \<le> unat r \<and>
            (\<forall>m. 0 < m \<and> unat p dvd m \<and> unat n \<le> m \<longrightarrow> unat r \<le> m)) \<and>
         estimate_memory_size p 0 = Some p \<and>
         estimate_memory_size p p = Some p \<and>
         (e < 63 \<longrightarrow> estimate_memory_size p (p + 1) = Some (2 * p))"
proof -
  have P: "unat p = 2 ^ e" unfolding assms(1) using assms(2) by (rule unat_pow2)
  have nz: "p \<noteq> 0" using P by (auto simp add: unat_eq_0[symmetric] simp del: unat_eq_0)
  have "unat n \<le> 2 ^ 64 - 2 ^ e" using assms(3) P by simp
  then have "unat n \<le> max_multiple p"
    unfolding assms(1) pow2_max_multiple[OF assms(2)] .
  then show ?thesis
    using estimate_smallest_multiple[OF nz] estimate_zero estimate_same estimate_succ assms(1)
    by simp
qed

theorem estimate_memory_size_rounds_up_witness:
  "(\<exists>r. estimate_memory_size 4096 45 = Some r \<and> 0 < unat r \<and>
        unat (4096 :: size_t) dvd unat r \<and> unat (45 :: size_t) \<le> unat r \<and>
        (\<forall>m. 0 < m \<and> unat (4096 :: size_t) dvd m \<and> unat (45 :: size_t) \<le> m \<longrightarrow>
             unat r \<le> m)) \<and>
   estimate_memory_size 4096 0 = Some 4096 \<and>
   estimate_memory_size 4096 4096 = Some 4096 \<and>
   estimate_memory_size 4096 4097 = Some 8192"
  using estimate_memory_size_rounds_up[of 4096 12 45] by simp

text \<open>
  With the usual page size of 4096 and the byte count \<open>2^64 - 1\<close> the function never
  returns: no product \<open>factor * 4096\<close> modulo \<open>2^64\<close> reaches the count.
\<close>

theorem estimate_memory_size_huge_count_diverges:
  "estimate_memory_size 4096 18446744073709551615 = None"
  using pow2_diverges[of 12 18446744073709551615] by simp

text \<open>
  Claim C10, as the code has it. For every page size \<open>p \<ge> 1\<close>: when the byte count
  \<open>n\<close> does not exceed the largest multiple of \<open>p\<close> that a \<^verbatim>\<open>size_t\<close> holds, the loop
  terminates, at a factor \<open>k\<close> whose product with \<open>p\<close> modulo \<open>2^64\<close> is at least
  \<open>n\<close>; when \<open>p\<close> is a power of two and \<open>n\<close> is above that bound, the loop never
  terminates.
\<close>

theorem estimate_loop_termination:
  assumes "p \<noteq> 0"
  shows "(unat n \<le> max_multiple p \<longrightarrow>
            (\<exists>k. 0 < k \<and> k < 2 ^ 64 \<and> n \<le> word_of_nat k * p \<and>
                 estimate_memory_size p n = Some (word_of_nat k * p))) \<and>
         ((\<exists>e<64. p = 2 ^ e) \<and> max_multiple p < unat n \<longrightarrow>
            estimate_memory_size p n = None)"
proof (intro conjI impI)
  assume fits: "unat n \<le> max_multiple p"
  let ?k = "pages_for (unat p) (unat n)"
  have P: "0 < unat p" using assms by (simp add: unat_gt_0)
  have kP: "?k * unat p < 2 ^ 64" using assms fits by (rule estimate_exact(2))
  have "?k \<le> ?k * unat p" using P by simp
  then have k: "?k < 2 ^ 64" using kP by (rule le_less_trans)
  have eq: "word_of_nat (?k * unat p) = word_of_nat ?k * p" by simp
  have ret: "estimate_memory_size p n = Some (word_of_nat ?k * p)"
    using estimate_exact(1)[OF assms fits] unfolding eq .
  then have "n \<le> word_of_nat ?k * p"
    using estimate_loop_result[of p n 1] by (simp add: estimate_memory_size_def)
  moreover have "0 < ?k" by (simp add: pages_for_def)
  ultimately show "\<exists>k. 0 < k \<and> k < 2 ^ 64 \<and> n \<le> word_of_nat k * p \<and>
                 estimate_memory_size p n = Some (word_of_nat k * p)"
    using k ret by blast
next
  assume "(\<exists>e<64. p = 2 ^ e) \<and> max_multiple p < unat n"
  then obtain e where e: "e < 64" "p = 2 ^ e" and above: "max_multiple p < unat n" by blast
  have "2 ^ 64 - 2 ^ e < unat n" using above unfolding e(2) pow2_max_multiple[OF e(1)] .
  then show "estimate_memory_size p n = None"
    unfolding e(2) using e(1) by (intro pow2_diverges)
qed

theorem estimate_loop_termination_witness:
  "(\<exists>k. 0 < k \<and> k < 2 ^ 64 \<and> (45 :: size_t) \<le> word_of_nat k * 4096 \<and>
        estimate_memory_size 4096 45 = Some (word_of_nat k * 4096)) \<and>
   estimate_memory_size 4096 18446744073709551615 = None"
proof -
  have a: "(4096 :: size_t) \<noteq> 0" by simp
  have b: "unat (45 :: size_t) \<le> max_multiple 4096" by (simp add: max_multiple_def)
  have c: "(\<exists>e<64. (4096 :: size_t) = 2 ^ e) \<and>
      max_multiple 4096 < unat (18446744073709551615 :: size_t)"
    by (auto simp add: max_multiple_def intro!: exI[of _ 12])
  show ?thesis
    using estimate_loop_termination[OF a, of 45]
      estimate_loop_termination[OF a, of 18446744073709551615] b c
    by blast
qed

text \<open>
  For the page size \<open>2^63 + 1\<close> the largest multiple a \<^verbatim>\<open>size_t\<close> holds is the page
  size itself; the byte count \<open>2^63 + 2\<close> is above it, and the loop returns at factor 3,
  where the product has wrapped around to \<open>2^63 + 3\<close>.
\<close>

theorem wrapped_product_ends_the_loop:
  "max_multiple 9223372036854775809 < unat (9223372036854775810 :: size_t) \<and>
   estimate_memory_size 9223372036854775809 9223372036854775810 = Some 9223372036854775811"
  by (simp add: max_multiple_def estimate_memory_size_def estimate_loop.simps)

section \<open>The lifecycle of the mapping\<close>

subsection \<open>The three runs of the try block\<close>

lemma try_block_run:
  assumes "estimate_memory_size (page_size h) (word_of_nat (length mc)) = Some sz"
  shows "try_block h mc s = Some
    (if \<not> mmap_ok h
     then (Inl ''Failed to allocate memory for machine code'',
           s\<lparr>region_ops := region_ops s @ [Mmap sz PROT_READ_WRITE]\<rparr>)
     else if \<not> mprotect_ok h
     then (Inl ''Failed to make memory executable'',
           s\<lparr>mapping := None,
             region_ops := region_ops s @
               [Mmap sz PROT_READ_WRITE, Copy mc, Mprotect sz PROT_READ_EXEC, Munmap sz]\<rparr>)
     else (Inr (),
           s\<lparr>mapping := None,
             region_ops := region_ops s @
               [Mmap sz PROT_READ_WRITE, Copy mc, Mprotect sz PROT_READ_EXEC, Invoke,
                Munmap sz]\<rparr>))"
  using assms
  by (simp add: try_block_def sys_mmap_def std_copy_def sys_mprotect_def call_func_def
      sys_munmap_def)

lemma main_run:
  assumes "page_size h \<noteq> 0"
    and "length (machine_code_template a) + length (hello_name name) \<le>
      max_multiple (page_size h)"
  shows "\<exists>mc sz. build_machine_code a (hello_name name) = Some mc \<and>
     main h a name = Some
    (if \<not> mmap_ok h
     then (EXIT_FAILURE,
           \<lparr>mapping = None, region_ops = [Mmap sz PROT_READ_WRITE],
            cerr = ''Error: Failed to allocate memory for machine code'' @ [CHR 0x0A]\<rparr>)
     else if \<not> mprotect_ok h
     then (EXIT_FAILURE,
           \<lparr>mapping = None,
            region_ops =
              [Mmap sz PROT_READ_WRITE, Copy mc, Mprotect sz PROT_READ_EXEC, Munmap sz],
            cerr = ''Error: Failed to make memory executable'' @ [CHR 0x0A]\<rparr>)
     else (EXIT_SUCCESS,
           \<lparr>mapping = None,
            region_ops =
              [Mmap sz PROT_READ_WRITE, Copy mc, Mprotect sz PROT_READ_EXEC, Invoke,
               Munmap sz],
            cerr = []\<rparr>))"
proof -
  obtain mc where mc: "build_machine_code a (hello_name name) = Some mc"
    and len: "length mc \<le> length (machine_code_template a) + length (hello_name name)"
    using build_defined by blast
  have "length mc \<le> max_multiple (page_size h)" using len assms(2) by (rule le_trans)
  then obtain sz where
    "estimate_memory_size (page_size h) (word_of_nat (length mc)) = Some sz"
    using estimate_defined[OF assms(1)] by blast
  then show ?thesis using mc
    by (simp add: main_def try_block_run initial_process_def)
qed

subsection \<open>Failure of the permission flip\<close>

text \<open>
  Claim C6. When the page size is positive and the code fits a multiple of it, the
  allocation succeeds and \<^verbatim>\<open>mprotect\<close> fails, the try block throws
  \<open>Failed to make memory executable\<close> from a state in which nothing is mapped any more:
  the calls on the region were \<^verbatim>\<open>mmap\<close>, the copy, \<^verbatim>\<open>mprotect\<close> and then
  \<^verbatim>\<open>munmap\<close> with the size that was mapped.
\<close>

theorem seal_failure_releases_region:
  assumes "page_size h \<noteq> 0" and "length mc \<le> max_multiple (page_size h)"
    and "mmap_ok h" and "\<not> mprotect_ok h"
  shows "\<exists>sz s'. try_block h mc s = Some (Inl ''Failed to make memory executable'', s') \<and>
           mapping s' = None \<and>
           region_ops s' = region_ops s @
             [Mmap sz PROT_READ_WRITE, Copy mc, Mprotect sz PROT_READ_EXEC, Munmap sz]"
proof -
  obtain sz where "estimate_memory_size (page_size h) (word_of_nat (length mc)) = Some sz"
    using estimate_defined[OF assms(1,2)] by blast
  then show ?thesis using assms(3,4) by (simp add: try_block_run)
qed

theorem seal_failure_releases_region_witness:
  "\<exists>sz s'. try_block \<lparr>page_size = 4096, mmap_ok = True, mprotect_ok = False\<rparr>
       (machine_code_template ARM64_MACOS) initial_process =
         Some (Inl ''Failed to make memory executable'', s') \<and>
       mapping s' = None \<and>
       region_ops s' = region_ops initial_process @
         [Mmap sz PROT_READ_WRITE, Copy (machine_code_template ARM64_MACOS),
          Mprotect sz PROT_READ_EXEC, Munmap sz]"
  by (rule seal_failure_releases_region)
    (simp_all add: max_multiple_def machine_code_template_def)

subsection \<open>Release exactly once\<close>

lemma main_region_log:
  assumes "page_size h \<noteq> 0"
    and "length (machine_code_template a) + length (hello_name name) \<le>
      max_multiple (page_size h)"
    and "mmap_ok h"
  shows "\<exists>code s mc sz. build_machine_code a (hello_name name) = Some mc \<and>
     estimate_memory_size (page_size h) (word_of_nat (length mc)) = Some sz \<and>
     main h a name = Some (code, s) \<and>
     region_ops s =
       [Mmap sz PROT_READ_WRITE, Copy mc, Mprotect sz PROT_READ_EXEC] @
       (if mprotect_ok h then [Invoke] else []) @ [Munmap sz] \<and>
     mapping s = None"
proof -
  obtain mc where mc: "build_machine_code a (hello_name name) = Some mc"
    and len: "length mc \<le> length (machine_code_template a) + length (hello_name name)"
    using build_defined by blast
  have "length mc \<le> max_multiple (page_size h)" using len assms(2) by (rule le_trans)
  then obtain sz where
    sz: "estimate_memory_size (page_size h) (word_of_nat (length mc)) = Some sz"
    using estimate_defined[OF assms(1)] by blast
  show ?thesis using mc sz assms(3)
    by (simp add: main_def try_block_run initial_process_def)
qed

text \<open>
  Claim C7. When the page size is positive, the code fits a multiple of it and the
  allocation succeeds, \<^verbatim>\<open>main\<close> returns, whether \<^verbatim>\<open>mprotect\<close> succeeds or fails, and
  the calls on the region are exactly these, in this order: \<^verbatim>\<open>mmap\<close> of the size
  \<open>sz\<close> that \<^verbatim>\<open>estimate_memory_size\<close> returned for the finished buffer, the copy of
  that buffer, \<^verbatim>\<open>mprotect\<close> of \<open>sz\<close> bytes, the call of the generated code when
  \<^verbatim>\<open>mprotect\<close> succeeded, and one \<^verbatim>\<open>munmap\<close> of the same \<open>sz\<close> bytes. So the region
  that was allocated is released whole, exactly once, no call on the region follows the
  release, and nothing is left mapped.
\<close>

theorem release_exactly_once:
  assumes "page_size h \<noteq> 0"
    and "length (machine_code_template a) + length (hello_name name) \<le>
      max_multiple (page_size h)"
    and "mmap_ok h"
  shows "\<exists>code s mc sz. build_machine_code a (hello_name name) = Some mc \<and>
     estimate_memory_size (page_size h) (word_of_nat (length mc)) = Some sz \<and>
     main h a name = Some (code, s) \<and>
     region_ops s =
       [Mmap sz PROT_READ_WRITE, Copy mc, Mprotect sz PROT_READ_EXEC] @
       (if mprotect_ok h then [Invoke] else []) @ [Munmap sz] \<and>
     releases (region_ops s) = 1 \<and> ops_after_release (region_ops s) = [] \<and>
     mapping s = None"
proof -
  obtain code s mc sz where run:
    "build_machine_code a (hello_name name) = Some mc"
    "estimate_memory_size (page_size h) (word_of_nat (length mc)) = Some sz"
    "main h a name = Some (code, s)"
    "region_ops s =
       [Mmap sz PROT_READ_WRITE, Copy mc, Mprotect sz PROT_READ_EXEC] @
       (if mprotect_ok h then [Invoke] else []) @ [Munmap sz]"
    "mapping s = None"
    using main_region_log[OF assms] by blast
  have "releases (region_ops s) = 1" and "ops_after_release (region_ops s) = []"
    unfolding run(4) by (simp_all add: releases_def ops_after_release_def)
  then show ?thesis using run by blast
qed

theorem release_exactly_once_witness:
  "(\<exists>code s. main \<lparr>page_size = 4096, mmap_ok = True, mprotect_ok = False\<rparr>
       ARM64_MACOS ''World'' = Some (code, s) \<and>
     region_ops s =
       [Mmap 4096 PROT_READ_WRITE, Copy [0x00, 0x00, 0x80, 0xd2, 0xc0, 0x03, 0x5f, 0xd6],
        Mprotect 4096 PROT_READ_EXEC, Munmap 4096] \<and>
     releases (region_ops s) = 1 \<and> ops_after_release (region_ops s) = [] \<and>
     mapping s = None) \<and>
   (\<exists>code s. main \<lparr>page_size = 4096, mmap_ok = True, mprotect_ok = True\<rparr>
       ARM64_MACOS ''World'' = Some (code, s) \<and>
     region_ops s =
       [Mmap 4096 PROT_READ_WRITE, Copy [0x00, 0x00, 0x80, 0xd2, 0xc0, 0x03, 0x5f, 0xd6],
        Mprotect 4096 PROT_READ_EXEC, Invoke, Munmap 4096] \<and>
     releases (region_ops s) = 1 \<and> ops_after_release (region_ops s) = [] \<and>
     mapping s = None)"
proof -
  let ?denied = "\<lparr>page_size = 4096, mmap_ok = True, mprotect_ok = False\<rparr>"
  let ?granted = "\<lparr>page_size = 4096, mmap_ok = True, mprotect_ok = True\<rparr>"
  have fits: "length (machine_code_template ARM64_MACOS) + length (hello_name ''World'') \<le>
      max_multiple 4096"
    by (simp add: max_multiple_def machine_code_template_def hello_name_def)
  have d1: "page_size ?denied \<noteq> 0" and g1: "page_size ?granted \<noteq> 0" by simp_all
  have d2: "length (machine_code_template ARM64_MACOS) + length (hello_name ''World'') \<le>
      max_multiple (page_size ?denied)"
    and g2: "length (machine_code_template ARM64_MACOS) + length (hello_name ''World'') \<le>
      max_multiple (page_size ?granted)"
    using fits by simp_all
  have d3: "mmap_ok ?denied" and g3: "mmap_ok ?granted" by simp_all
  have b: "build_machine_code ARM64_MACOS (hello_name ''World'') =
      Some [0x00, 0x00, 0x80, 0xd2, 0xc0, 0x03, 0x5f, 0xd6]"
    by (simp add: build_defs)
  have e: "estimate_memory_size 4096 8 = Some 4096"
    by (simp add: estimate_memory_size_def estimate_loop.simps)
  have denied: "\<exists>code s. main ?denied ARM64_MACOS ''World'' = Some (code, s) \<and>
     region_ops s =
       [Mmap 4096 PROT_READ_WRITE, Copy [0x00, 0x00, 0x80, 0xd2, 0xc0, 0x03, 0x5f, 0xd6],
        Mprotect 4096 PROT_READ_EXEC, Munmap 4096] \<and>
     releases (region_ops s) = 1 \<and> ops_after_release (region_ops s) = [] \<and>
     mapping s = None"
    using release_exactly_once[OF d1 d2 d3] b e by auto
  have granted: "\<exists>code s. main ?granted ARM64_MACOS ''World'' = Some (code, s) \<and>
     region_ops s =
       [Mmap 4096 PROT_READ_WRITE, Copy [0x00, 0x00, 0x80, 0xd2, 0xc0, 0x03, 0x5f, 0xd6],
        Mprotect 4096 PROT_READ_EXEC, Invoke, Munmap 4096] \<and>
     releases (region_ops s) = 1 \<and> ops_after_release (region_ops s) = [] \<and>
     mapping s = None"
    using release_exactly_once[OF g1 g2 g3] b e by auto
  show ?thesis using denied granted by blast
qed

subsection \<open>Exit code and error message\<close>

text \<open>
  Claim C8. When the page size is positive and the code fits a multiple of it,
  \<^verbatim>\<open>main\<close> returns \<^verbatim>\<open>EXIT_SUCCESS\<close> with nothing on the error stream if both the
  allocation and the permission flip succeed, and otherwise the different code
  \<^verbatim>\<open>EXIT_FAILURE\<close> with one line on the error stream that names the failed step:
  \<open>Error: Failed to allocate memory for machine code\<close> when \<^verbatim>\<open>mmap\<close> fails,
  \<open>Error: Failed to make memory executable\<close> when \<^verbatim>\<open>mprotect\<close> fails.
\<close>

theorem exit_contract:
  assumes "page_size h \<noteq> 0"
    and "length (machine_code_template a) + length (hello_name name) \<le>
      max_multiple (page_size h)"
  shows "\<exists>s. main h a name =
           Some (if mmap_ok h \<and> mprotect_ok h then EXIT_SUCCESS else EXIT_FAILURE, s) \<and>
         cerr s =
           (if \<not> mmap_ok h then ''Error: Failed to allocate memory for machine code\<newline>''
            else if \<not> mprotect_ok h then ''Error: Failed to make memory executable\<newline>''
            else []) \<and>
         EXIT_SUCCESS \<noteq> EXIT_FAILURE"
  using main_run[OF assms(1,2)]
  by (auto simp add: EXIT_FAILURE_def EXIT_SUCCESS_def)

theorem exit_contract_witness:
  "(\<exists>s. main \<lparr>page_size = 4096, mmap_ok = True, mprotect_ok = True\<rparr> X86_64_LINUX ''Ada'' =
           Some (EXIT_SUCCESS, s) \<and> cerr s = []) \<and>
   (\<exists>s. main \<lparr>page_size = 4096, mmap_ok = False, mprotect_ok = True\<rparr> X86_64_LINUX ''Ada'' =
           Some (EXIT_FAILURE, s) \<and>
         cerr s = ''Error: Failed to allocate memory for machine code\<newline>'') \<and>
   (\<exists>s. main \<lparr>page_size = 4096, mmap_ok = True, mprotect_ok = False\<rparr> X86_64_LINUX ''Ada'' =
           Some (EXIT_FAILURE, s) \<and>
         cerr s = ''Error: Failed to make memory executable\<newline>'')"
proof -
  have fits: "length (machine_code_template X86_64_LINUX) + length (hello_name ''Ada'') \<le>
      max_multiple 4096"
    by (simp add: max_multiple_def machine_code_template_def hello_name_def)
  have r1: "\<exists>s. main \<lparr>page_size = 4096, mmap_ok = True, mprotect_ok = True\<rparr>
        X86_64_LINUX ''Ada'' = Some (EXIT_SUCCESS, s) \<and> cerr s = []"
    using exit_contract[of "\<lparr>page_size = 4096, mmap_ok = True, mprotect_ok = True\<rparr>"
        X86_64_LINUX "''Ada''"] fits
    by auto
  have r2: "\<exists>s. main \<lparr>page_size = 4096, mmap_ok = False, mprotect_ok = True\<rparr>
        X86_64_LINUX ''Ada'' = Some (EXIT_FAILURE, s) \<and>
      cerr s = ''Error: Failed to allocate memory for machine code\<newline>''"
    using exit_contract[of "\<lparr>page_size = 4096, mmap_ok = False, mprotect_ok = True\<rparr>"
        X86_64_LINUX "''Ada''"] fits
    by auto
  have r3: "\<exists>s. main \<lparr>page_size = 4096, mmap_ok = True, mprotect_ok = False\<rparr>
        X86_64_LINUX ''Ada'' = Some (EXIT_FAILURE, s) \<and>
      cerr s = ''Error: Failed to make memory executable\<newline>''"
    using exit_contract[of "\<lparr>page_size = 4096, mmap_ok = True, mprotect_ok = False\<rparr>"
        X86_64_LINUX "''Ada''"] fits
    by auto
  show ?thesis using r1 r2 r3 by blast
qed

end
